theory Spec2Isabelle
  imports Main "HOL-Library.Char_ord" "HOL-Library.List_Lexorder" "HOL-Library.Sublist"
begin

section \<open>Python strings\<close>

text \<open>
  A Python \<open>str\<close> is modelled as a \<open>string\<close>, each \<open>char\<close> standing for the code point
  of the same number (code points below 256).  The character classes below are the ones
  Python uses on that range.
\<close>

definition squote :: char where
  "squote = CHR 0x27"

definition dquote :: char where
  "dquote = CHR 0x22"

definition backslash :: char where
  "backslash = CHR 0x5C"

definition newline :: char where
  "newline = CHR 0x0A"

text \<open>\<open>str.isspace\<close> on one character.\<close>

definition isspace :: "char \<Rightarrow> bool" where
  "isspace c = (of_char c \<in> {9, 10, 11, 12, 13, 28, 29, 30, 31, 32, 133, 160 :: nat})"

definition lstrip :: "string \<Rightarrow> string" where
  "lstrip s = dropWhile isspace s"

definition rstrip :: "string \<Rightarrow> string" where
  "rstrip s = rev (dropWhile isspace (rev s))"

definition strip :: "string \<Rightarrow> string" where
  "strip s = lstrip (rstrip s)"

text \<open>\<open>s.partition(sep)\<close> for a one-character separator.\<close>

definition partition_py :: "char \<Rightarrow> string \<Rightarrow> string \<times> string \<times> string" where
  "partition_py sep s =
     (let r = dropWhile (\<lambda>c. c \<noteq> sep) s in
      if r = [] then (s, [], []) else (takeWhile (\<lambda>c. c \<noteq> sep) s, [sep], tl r))"

definition lower_char :: "char \<Rightarrow> char" where
  "lower_char c =
     (let n = (of_char c :: nat) in
      if (65 \<le> n \<and> n \<le> 90) \<or> (192 \<le> n \<and> n \<le> 222 \<and> n \<noteq> 215)
      then char_of (n + 32) else c)"

definition lower :: "string \<Rightarrow> string" where
  "lower s = map lower_char s"

text \<open>\<open>key.replace('-', '_')\<close>.\<close>

definition replace_hyphens :: "string \<Rightarrow> string" where
  "replace_hyphens s = map (\<lambda>c. if c = CHR ''-'' then CHR ''_'' else c) s"

text \<open>\<open>sep.join(xs)\<close>.\<close>

fun join :: "string \<Rightarrow> string list \<Rightarrow> string" where
  "join sep [] = []"
| "join sep [x] = x"
| "join sep (x # y # ys) = x @ sep @ join sep (y # ys)"

text \<open>The generator \<open>unique\<close>: the values of the iterable, each at its first occurrence.\<close>

fun unique_from :: "'a set \<Rightarrow> 'a list \<Rightarrow> 'a list" where
  "unique_from seen [] = []"
| "unique_from seen (v # vs) =
     (if v \<notin> seen then v # unique_from (insert v seen) vs else unique_from seen vs)"

definition unique :: "'a list \<Rightarrow> 'a list" where
  "unique iterable = unique_from {} iterable"

section \<open>The header block\<close>

text \<open>
  The object returned by \<open>read_pkg_info\<close> is an \<open>email.message.Message\<close>: the headers
  in file order, keys repeatable and compared case-insensitively, and a payload.
\<close>

record pkg_info =
  headers :: "(string \<times> string) list"
  payload :: "string option"

datatype error = KeyError string | AttributeError | TypeError | IndexError

definition same_name :: "string \<Rightarrow> string \<times> string \<Rightarrow> bool" where
  "same_name name h = (lower (fst h) = lower name)"

text \<open>\<open>msg.keys()\<close>\<close>

definition msg_keys :: "pkg_info \<Rightarrow> string list" where
  "msg_keys m = map fst (headers m)"

text \<open>\<open>msg[name]\<close> and \<open>msg.get(name)\<close>: the first header of that name, else \<open>None\<close>.\<close>

definition msg_get :: "pkg_info \<Rightarrow> string \<Rightarrow> string option" where
  "msg_get m name = map_option snd (find (same_name name) (headers m))"

text \<open>\<open>msg.get_all(name)\<close>: every value of that name, \<open>None\<close> when there is none.\<close>

definition msg_get_all :: "pkg_info \<Rightarrow> string \<Rightarrow> string list option" where
  "msg_get_all m name =
     (let values = map snd (filter (same_name name) (headers m)) in
      if values = [] then None else Some values)"

text \<open>\<open>del msg[name]\<close>: every header of that name goes.\<close>

definition msg_del :: "pkg_info \<Rightarrow> string \<Rightarrow> pkg_info" where
  "msg_del m name = m\<lparr>headers := filter (\<lambda>h. \<not> same_name name h) (headers m)\<rparr>"




section \<open>Values of the metadata document\<close>

text \<open>
  The Python values that the document holds.  A dict is the list of its items in insertion
  order; Python compares dicts whatever the order.  The document itself is a map from field
  names to values.
\<close>

datatype pyval =
    PyNone
  | Str string
  | List "pyval list"
  | Dict "(string \<times> pyval) list"

type_synonym metadata = "string \<rightharpoonup> pyval"

definition str_list :: "string list \<Rightarrow> pyval" where
  "str_list xs = List (map Str xs)"

definition of_opt_str :: "string option \<Rightarrow> pyval" where
  "of_opt_str v = (case v of None \<Rightarrow> PyNone | Some s \<Rightarrow> Str s)"

definition of_opt_list :: "string list option \<Rightarrow> pyval" where
  "of_opt_list v = (case v of None \<Rightarrow> PyNone | Some xs \<Rightarrow> str_list xs)"

fun truthy :: "pyval \<Rightarrow> bool" where
  "truthy PyNone = False"
| "truthy (Str s) = (s \<noteq> [])"
| "truthy (List xs) = (xs \<noteq> [])"
| "truthy (Dict kvs) = (kvs \<noteq> [])"

fun is_Str :: "pyval \<Rightarrow> bool" where
  "is_Str (Str s) = True"
| "is_Str v = False"

fun the_Str :: "pyval \<Rightarrow> string" where
  "the_Str (Str s) = s"
| "the_Str v = []"

fun hashable :: "pyval \<Rightarrow> bool" where
  "hashable PyNone = True"
| "hashable (Str s) = True"
| "hashable (List xs) = False"
| "hashable (Dict kvs) = False"

text \<open>Iterating a value: the items of a list, the characters of a string, the keys of a dict.\<close>

fun py_iter :: "pyval \<Rightarrow> error + pyval list" where
  "py_iter PyNone = Inl TypeError"
| "py_iter (Str s) = Inr (map (\<lambda>c. Str [c]) s)"
| "py_iter (List xs) = Inr xs"
| "py_iter (Dict kvs) = Inr (map (\<lambda>kv. Str (fst kv)) kvs)"

text \<open>\<open>v.extend(ys)\<close>: only a list has the method.\<close>

fun py_extend :: "pyval \<Rightarrow> pyval list \<Rightarrow> error + pyval" where
  "py_extend (List xs) ys = Inr (List (xs @ ys))"
| "py_extend v ys = Inl AttributeError"

text \<open>
  \<open>sorted(unique(v))\<close>: \<open>unique\<close> keeps its values in a set, so each must be hashable;
  \<open>sorted\<close> compares strings by code point and cannot compare \<open>None\<close> with anything.
\<close>

definition py_sorted :: "pyval list \<Rightarrow> error + pyval list" where
  "py_sorted xs =
     (if list_all is_Str xs then Inr (map Str (sort (map the_Str xs)))
      else if length xs \<le> 1 then Inr xs
      else Inl TypeError)"

definition sorted_unique :: "pyval \<Rightarrow> error + pyval" where
  "sorted_unique v =
     (case py_iter v of
        Inl e \<Rightarrow> Inl e
      | Inr xs \<Rightarrow>
          if list_all hashable xs
          then (case py_sorted (unique xs) of Inl e \<Rightarrow> Inl e | Inr ys \<Rightarrow> Inr (List ys))
          else Inl TypeError)"

section \<open>The description normalizer\<close>

text \<open>\<open>str.splitlines()\<close>: the line boundaries among the code points below 256.\<close>

definition is_linebreak :: "char \<Rightarrow> bool" where
  "is_linebreak c = (of_char c \<in> {10, 11, 12, 13, 28, 29, 30, 133 :: nat})"

fun splitlines_from :: "string \<Rightarrow> string \<Rightarrow> string list" where
  "splitlines_from cur [] = (if cur = [] then [] else [cur])"
| "splitlines_from cur [c] = (if is_linebreak c then [cur] else [cur @ [c]])"
| "splitlines_from cur (c # d # cs) =
     (if c = CHR 0x0D \<and> d = CHR 0x0A then cur # splitlines_from [] cs
      else if is_linebreak c then cur # splitlines_from [] (d # cs)
      else splitlines_from (cur @ [c]) (d # cs))"

definition splitlines :: "string \<Rightarrow> string list" where
  "splitlines s = splitlines_from [] s"

text \<open>\<open>text.split('\n')\<close>, which is also how a multi-line regular expression sees lines.\<close>

fun split_on :: "char \<Rightarrow> string \<Rightarrow> string list" where
  "split_on sep [] = [[]]"
| "split_on sep (c # cs) =
     (if c = sep then [] # split_on sep cs
      else (let ls = split_on sep cs in (c # hd ls) # tl ls))"

definition startswith :: "string \<Rightarrow> string \<Rightarrow> bool" where
  "startswith s p = (take (length p) s = p)"

text \<open>
  \<open>textwrap.dedent\<close>, as the standard library has it up to Python 3.13, line by line:
  a line of blanks only (\<open>^[ \t]+$\<close>) is emptied; the indent of a line is its leading run of
  blanks when a character other than a blank follows (\<open>(^[ \t]*)(?:[^ \t\n])\<close>); the margin
  is worked out over the indents in turn; a non-empty margin is cut from the start of every
  line that has it.
\<close>

definition is_blank :: "char \<Rightarrow> bool" where
  "is_blank c = (c = CHR '' '' \<or> c = CHR 0x09)"

fun zip_cut :: "string \<Rightarrow> string \<Rightarrow> string" where
  "zip_cut [] ys = []"
| "zip_cut (x # xs) [] = x # xs"
| "zip_cut (x # xs) (y # ys) = (if x \<noteq> y then [] else x # zip_cut xs ys)"

definition margin_step :: "string \<Rightarrow> string option \<Rightarrow> string option" where
  "margin_step indent margin =
     (case margin of
        None \<Rightarrow> Some indent
      | Some m \<Rightarrow>
          if startswith indent m then Some m
          else if startswith m indent then Some indent
          else Some (zip_cut m indent))"

definition blank_out :: "string \<Rightarrow> string" where
  "blank_out l = (if l \<noteq> [] \<and> list_all is_blank l then [] else l)"

definition indents_of :: "string list \<Rightarrow> string list" where
  "indents_of ls = map (takeWhile is_blank) (filter (\<lambda>l. dropWhile is_blank l \<noteq> []) ls)"

definition cut_margin :: "string \<Rightarrow> string \<Rightarrow> string" where
  "cut_margin m l = (if startswith l m then drop (length m) l else l)"

definition dedent_lines :: "string list \<Rightarrow> string list" where
  "dedent_lines ls =
     (let ls1 = map blank_out ls;
          margin = fold margin_step (indents_of ls1) None
      in case margin of
           None \<Rightarrow> ls1
         | Some m \<Rightarrow> if m \<noteq> [] then map (cut_margin m) ls1 else ls1)"

definition dedent :: "string \<Rightarrow> string" where
  "dedent text = join [newline] (dedent_lines (split_on newline text))"

text \<open>
  \<open>dedent_description\<close> on a description that is native text (a \<open>str\<close>).  A header block
  without the header gives \<open>None\<close>, on which \<open>splitlines\<close> does not exist; the empty
  description has no first line.  The branch for a description that is not a \<open>str\<close>
  (re-encoding through \<open>surrogateescape\<close>) is not modelled.
\<close>

definition dedent_description :: "pkg_info \<Rightarrow> error + string" where
  "dedent_description pkg_info =
     (case msg_get pkg_info ''Description'' of
        None \<Rightarrow> Inl AttributeError
      | Some description \<Rightarrow>
          (case splitlines description of
             [] \<Rightarrow> Inl IndexError
           | first # following \<Rightarrow>
               Inr (join [newline]
                      [lstrip first, dedent (join [newline] following), [newline]])))"

section \<open>The requirement grouper\<close>

text \<open>
  \<open>EXTRA_RE.match(marker)\<close> for \<open>extra == '(?P<extra>.+)'\<close>: the marker starts with
  \<open>extra == '\<close>; then \<open>.+\<close> takes as many characters other than a newline as it can and
  gives back until a quote follows.  The result is the group \<open>extra\<close>.
\<close>

definition EXTRA_PREFIX :: string where
  "EXTRA_PREFIX = ''extra == '' @ [squote]"

definition EXTRA_RE_match :: "string \<Rightarrow> string option" where
  "EXTRA_RE_match marker =
     (if startswith marker EXTRA_PREFIX
      then (let line = takeWhile (\<lambda>c. c \<noteq> newline) (drop (length EXTRA_PREFIX) marker) in
            case dropWhile (\<lambda>c. c \<noteq> squote) (rev line) of
              [] \<Rightarrow> None
            | q # body \<Rightarrow> if body = [] then None else Some (rev body))
      else None)"

text \<open>\<open>extra_requirements[extra_name].append(requirement)\<close> on a \<open>defaultdict(list)\<close>.\<close>

fun dd_append :: "string \<Rightarrow> string \<Rightarrow> (string \<times> string list) list \<Rightarrow> (string \<times> string list) list" where
  "dd_append k v [] = [(k, [v])]"
| "dd_append k v ((k', vs) # rest) =
     (if k = k' then (k', vs @ [v]) # rest else (k', vs) # dd_append k v rest)"

type_synonym grouping = "string list \<times> (string \<times> string list) list"

definition group_step :: "grouping \<Rightarrow> string \<Rightarrow> grouping" where
  "group_step st val =
     (case partition_py CHR '';'' val of (requirement, sep, marker0) \<Rightarrow>
        let marker = strip marker0 in
        if marker \<noteq> []
        then (case EXTRA_RE_match marker of
                Some extra_name \<Rightarrow> (fst st, dd_append extra_name requirement (snd st))
              | None \<Rightarrow> st)
        else (fst st @ [requirement], snd st))"

definition group_requirements :: "string list \<Rightarrow> grouping" where
  "group_requirements vals = foldl group_step ([], []) vals"

section \<open>The forward conversion\<close>

definition METADATA_VERSION :: string where
  "METADATA_VERSION = ''2.0''"

definition PLURAL_FIELDS :: "string \<rightharpoonup> string" where
  "PLURAL_FIELDS =
     [''classifier'' \<mapsto> ''classifiers'',
      ''provides_dist'' \<mapsto> ''provides'',
      ''provides_extra'' \<mapsto> ''extras'']"

definition SKIP_FIELDS :: "string set" where
  "SKIP_FIELDS = {}"

definition UNKNOWN_FIELDS :: "string set" where
  "UNKNOWN_FIELDS = {''author'', ''author_email'', ''platform'', ''home_page'', ''license''}"

definition CONTACT_FIELDS :: "((string \<times> string) list \<times> string) list" where
  "CONTACT_FIELDS =
     [([(''email'', ''author_email''), (''name'', ''author'')], ''author''),
      ([(''email'', ''maintainer_email''), (''name'', ''maintainer'')], ''maintainer'')]"

text \<open>
  The two places that write \<open>extras\<close> after making sure it exists:
  \<open>if not 'extras' in metadata: metadata['extras'] = []\<close> and then \<open>.extend(...)\<close>.
\<close>

definition extend_extras :: "metadata \<Rightarrow> pyval list \<Rightarrow> error + metadata" where
  "extend_extras metadata ys =
     (let md = (if ''extras'' \<in> dom metadata then metadata else metadata(''extras'' \<mapsto> List [])) in
      case py_extend (the (md ''extras'')) ys of
        Inl e \<Rightarrow> Inl e
      | Inr v \<Rightarrow> Inr (md(''extras'' \<mapsto> v)))"

definition may_require_record :: "string \<times> string list \<Rightarrow> pyval" where
  "may_require_record kv = Dict [(''extra'', Str (fst kv)), (''dependencies'', str_list (snd kv))]"

definition requires_dist_rule :: "pkg_info \<Rightarrow> string \<Rightarrow> metadata \<Rightarrow> error + metadata" where
  "requires_dist_rule pkg_info key metadata =
     (case msg_get_all pkg_info key of
        None \<Rightarrow> Inl TypeError
      | Some vals \<Rightarrow>
          (case group_requirements vals of (requirements, extra_requirements) \<Rightarrow>
             let md = metadata(''requires'' \<mapsto> str_list requirements) in
             if extra_requirements \<noteq> []
             then extend_extras
                    (md(''may_require'' \<mapsto> List (map may_require_record (sort_key fst extra_requirements))))
                    (map Str (sort (map fst extra_requirements)))
             else Inr md))"

text \<open>The body of the loop over the keys, \<open>continue\<close> being the unchanged document.\<close>

definition field_rule :: "pkg_info \<Rightarrow> string \<Rightarrow> metadata \<Rightarrow> error + metadata" where
  "field_rule pkg_info key metadata =
     (let low_key = replace_hyphens key in
      if low_key \<in> SKIP_FIELDS then Inr metadata
      else if low_key \<in> UNKNOWN_FIELDS \<and> msg_get pkg_info key = Some ''UNKNOWN'' then Inr metadata
      else (case PLURAL_FIELDS low_key of
              Some plural \<Rightarrow> Inr (metadata(plural \<mapsto> of_opt_list (msg_get_all pkg_info key)))
            | None \<Rightarrow>
                if low_key = ''requires_dist'' then requires_dist_rule pkg_info key metadata
                else if low_key = ''provides_extra''
                then (case msg_get_all pkg_info key of
                        None \<Rightarrow> Inl TypeError
                      | Some vals \<Rightarrow> extend_extras metadata (map Str vals))
                else if low_key = ''home_page''
                then Inr (metadata(''project_urls'' \<mapsto> Dict [(''Home'', of_opt_str (msg_get pkg_info key))]))
                else Inr (metadata(low_key \<mapsto> of_opt_str (msg_get pkg_info key)))))"

fun field_loop :: "pkg_info \<Rightarrow> string list \<Rightarrow> metadata \<Rightarrow> error + metadata" where
  "field_loop pkg_info [] metadata = Inr metadata"
| "field_loop pkg_info (key # keys) metadata =
     (case field_rule pkg_info key metadata of
        Inl e \<Rightarrow> Inl e
      | Inr md \<Rightarrow> field_loop pkg_info keys md)"

text \<open>The description: the normalized header when it is non-empty, else a non-empty payload.\<close>

definition nonempty :: "string option \<Rightarrow> bool" where
  "nonempty v = (case v of None \<Rightarrow> False | Some s \<Rightarrow> s \<noteq> [])"

definition extract_description :: "pkg_info \<Rightarrow> error + (metadata \<times> pkg_info)" where
  "extract_description pkg_info =
     (if nonempty (msg_get pkg_info ''Description'')
      then (case dedent_description pkg_info of
              Inl e \<Rightarrow> Inl e
            | Inr d \<Rightarrow> Inr ([''description'' \<mapsto> Str d], msg_del pkg_info ''Description''))
      else if nonempty (payload pkg_info)
      then Inr ([''description'' \<mapsto> Str (the (payload pkg_info))], pkg_info)
      else Inr (Map.empty, pkg_info))"

text \<open>
  The optional \<open>distribution\<close>: \<open>None\<close>, or an object with its truth value (what
  \<open>if distribution:\<close> tests) and its \<open>tests_require\<close> attribute, which has a value or is
  missing (\<open>AttributeError\<close>, passed over).
\<close>

datatype distribution = NoDistribution | Distribution bool "pyval option"

definition add_test_requires :: "distribution \<Rightarrow> metadata \<Rightarrow> metadata" where
  "add_test_requires distribution metadata =
     (case distribution of
        NoDistribution \<Rightarrow> metadata
      | Distribution truth attr \<Rightarrow>
          if truth
          then (case attr of
                  None \<Rightarrow> metadata
                | Some requirements \<Rightarrow>
                    if truthy requirements then metadata(''test_requires'' \<mapsto> requirements)
                    else metadata)
          else metadata)"

text \<open>The contacts: for each role, the pieces found are popped from the document.\<close>

definition contact_piece :: "(string \<times> pyval) list \<times> metadata \<Rightarrow> string \<times> string \<Rightarrow> (string \<times> pyval) list \<times> metadata" where
  "contact_piece st kf =
     (case st of (contact, metadata) \<Rightarrow>
        if snd kf \<in> dom metadata
        then (contact @ [(fst kf, the (metadata (snd kf)))], metadata(snd kf := None))
        else (contact, metadata))"

definition contact_role :: "pyval list \<times> metadata \<Rightarrow> (string \<times> string) list \<times> string \<Rightarrow> pyval list \<times> metadata" where
  "contact_role st cr =
     (case st of (contacts, metadata) \<Rightarrow>
        case foldl contact_piece ([], metadata) (fst cr) of (contact, md) \<Rightarrow>
          if contact \<noteq> [] then (contacts @ [Dict (contact @ [(''role'', Str (snd cr))])], md)
          else (contacts, md))"

definition handle_contacts :: "metadata \<Rightarrow> metadata" where
  "handle_contacts metadata =
     (case foldl contact_role ([], metadata) CONTACT_FIELDS of (contacts, md) \<Rightarrow>
        if contacts \<noteq> [] then md(''contacts'' \<mapsto> List contacts) else md)"

definition finish_extras :: "metadata \<Rightarrow> error + metadata" where
  "finish_extras metadata =
     (case metadata ''extras'' of
        None \<Rightarrow> Inl (KeyError ''extras'')
      | Some v \<Rightarrow> (case sorted_unique v of Inl e \<Rightarrow> Inl e | Inr w \<Rightarrow> Inr (metadata(''extras'' \<mapsto> w))))"

definition pkginfo_to_dict :: "pkg_info \<Rightarrow> distribution \<Rightarrow> error + metadata" where
  "pkginfo_to_dict pkg_info0 distribution =
     (case extract_description pkg_info0 of
        Inl e \<Rightarrow> Inl e
      | Inr (metadata0, pkg_info) \<Rightarrow>
          (case field_loop pkg_info (unique (map lower (msg_keys pkg_info))) metadata0 of
             Inl e \<Rightarrow> Inl e
           | Inr md1 \<Rightarrow>
               (case finish_extras (md1(''metadata_version'' \<mapsto> Str METADATA_VERSION)) of
                  Inl e \<Rightarrow> Inl e
                | Inr md2 \<Rightarrow> Inr (handle_contacts (add_test_requires distribution md2)))))"

section \<open>The requirement composer and the reverse conversion\<close>

text \<open>
  A parsed requirement, as \<open>pkg_resources.Requirement.parse\<close> hands it over: the project
  name, the extras and the (operator, version) pairs.
\<close>

record requirement =
  project_name :: string
  extras :: "string list"
  specs :: "(string \<times> string) list"

definition requires_to_requires_dist :: "requirement \<Rightarrow> string" where
  "requires_to_requires_dist requirement =
     (let requires_dist = map (\<lambda>ov. fst ov @ snd ov) (specs requirement) in
      if requires_dist = [] then []
      else '' ('' @ join '','' requires_dist @ '')'')"

text \<open>
  \<open>repr\<close> of a \<open>str\<close> (Python 3): double quotes when the text has a single quote and no
  double quote, single quotes otherwise; the chosen quote and the backslash are escaped, tab,
  newline and carriage return are written \<open>\t\<close>, \<open>\n\<close>, \<open>\r\<close>, and any other character that
  is not printable is written \<open>\xhh\<close>.
\<close>

definition printable :: "char \<Rightarrow> bool" where
  "printable c =
     (let n = (of_char c :: nat) in (32 \<le> n \<and> n \<le> 126) \<or> (161 \<le> n \<and> n \<noteq> 173))"

definition hexdigit :: "nat \<Rightarrow> char" where
  "hexdigit n = ''0123456789abcdef'' ! n"

definition repr_char :: "char \<Rightarrow> char \<Rightarrow> string" where
  "repr_char quote c =
     (if c = quote \<or> c = backslash then [backslash, c]
      else if c = CHR 0x09 then [backslash, CHR ''t'']
      else if c = CHR 0x0A then [backslash, CHR ''n'']
      else if c = CHR 0x0D then [backslash, CHR ''r'']
      else if printable c then [c]
      else [backslash, CHR ''x'',
            hexdigit ((of_char c :: nat) div 16), hexdigit ((of_char c :: nat) mod 16)])"

definition repr_str :: "string \<Rightarrow> string" where
  "repr_str s =
     (let quote = (if squote \<in> set s \<and> dquote \<notin> set s then dquote else squote) in
      [quote] @ concat (map (repr_char quote) s) @ [quote])"

text \<open>\<open>condition\<close>: empty unless the section has a name that is not the empty string.\<close>

definition extra_condition :: "string option \<Rightarrow> string" where
  "extra_condition extra =
     (if nonempty extra then ''; extra == '' @ repr_str (the extra) else [])"

text \<open>The value given to the \<open>Requires-Dist\<close> header for one requirement.\<close>

definition requires_dist_line :: "requirement \<Rightarrow> string \<Rightarrow> string" where
  "requires_dist_line parsed_requirement condition =
     (let spec = requires_to_requires_dist parsed_requirement;
          extras0 = join '','' (extras parsed_requirement);
          extras1 = (if extras0 \<noteq> [] then ''['' @ extras0 @ '']'' else extras0)
      in project_name parsed_requirement @ extras1 @ spec @ condition)"





section \<open>Notions used to state the properties\<close>


text \<open>The fields of the document that the rule of a key can store.\<close>

definition written_fields :: "string \<Rightarrow> string set" where
  "written_fields key =
     (let low_key = replace_hyphens key in
      case PLURAL_FIELDS low_key of
        Some plural \<Rightarrow> {plural}
      | None \<Rightarrow>
          if low_key = ''requires_dist'' then {''requires'', ''may_require'', ''extras''}
          else if low_key = ''provides_extra'' then {''extras''}
          else if low_key = ''home_page'' then {''project_urls''}
          else {low_key})"

text \<open>A line has a character that is not a blank.\<close>

definition nonblank :: "string \<Rightarrow> bool" where
  "nonblank l = (dropWhile is_blank l \<noteq> [])"

text \<open>
  The record of one role, read off the document: nothing when neither piece is there, else
  the pieces there are (email, then name) and the role.
\<close>

definition contact_record :: "metadata \<Rightarrow> string \<Rightarrow> string \<Rightarrow> string \<Rightarrow> pyval list" where
  "contact_record md email_field name_field role =
     (if md email_field = None \<and> md name_field = None then []
      else [Dict ((case md email_field of None \<Rightarrow> [] | Some e \<Rightarrow> [(''email'', e)]) @
                  (case md name_field of None \<Rightarrow> [] | Some n \<Rightarrow> [(''name'', n)]) @
                  [(''role'', Str role)])])"

text \<open>
  The header line as the specification words it: the name, the bracketed extras when the
  list is not empty, the parenthesized pairs when there are any, directly after what
  precedes, and the condition with the name between single quotes when a name is given.
\<close>

definition claimed_requires_dist_line :: "requirement \<Rightarrow> string option \<Rightarrow> string" where
  "claimed_requires_dist_line r extra =
     project_name r
     @ (if extras r = [] then [] else ''['' @ join '','' (extras r) @ '']'')
     @ (if specs r = [] then [] else ''('' @ join '','' (map (\<lambda>ov. fst ov @ snd ov) (specs r)) @ '')'')
     @ (case extra of None \<Rightarrow> [] | Some name \<Rightarrow> ''; extra == '' @ [squote] @ name @ [squote])"





section \<open>The requirement grouper: properties\<close>

lemma partition_py_eq:
  "partition_py sep s =
     (takeWhile (\<lambda>c. c \<noteq> sep) s,
      (if sep \<in> set s then [sep] else []),
      drop (Suc (length (takeWhile (\<lambda>c. c \<noteq> sep) s))) s)"
proof (cases "sep \<in> set s")
  case True
  then have ne: "dropWhile (\<lambda>c. c \<noteq> sep) s \<noteq> []" by (simp add: dropWhile_eq_Nil_conv)
  have "tl (dropWhile (\<lambda>c. c \<noteq> sep) s) = drop (Suc (length (takeWhile (\<lambda>c. c \<noteq> sep) s))) s"
    by (simp add: dropWhile_eq_drop drop_Suc tl_drop)
  with True ne show ?thesis by (simp add: partition_py_def Let_def)
next
  case False
  then have tw: "takeWhile (\<lambda>c. c \<noteq> sep) s = s" by (auto simp add: takeWhile_eq_all_conv)
  from False have dn: "dropWhile (\<lambda>c. c \<noteq> sep) s = []" by (auto simp add: dropWhile_eq_Nil_conv)
  show ?thesis unfolding partition_py_def Let_def dn tw using False by simp
qed




text \<open>
  C10.  The requirement part of a Requires-Dist value is everything before the first
  semicolon, kept as it is (only the marker is trimmed): that text is what is appended to the
  unconditional list when the marker is empty, and to the bucket of the extra when the
  marker names one.
\<close>

theorem requirement_part_verbatim:
  "group_step (reqs, buckets) v =
     (let requirement = takeWhile (\<lambda>c. c \<noteq> CHR '';'') v;
          marker = strip (drop (Suc (length requirement)) v)
      in if marker = [] then (reqs @ [requirement], buckets)
         else (case EXTRA_RE_match marker of
                 Some e \<Rightarrow> (reqs, dd_append e requirement buckets)
               | None \<Rightarrow> (reqs, buckets)))"
  by (simp add: group_step_def partition_py_eq Let_def split: option.split)

theorem requirement_part_verbatim_witness:
  "group_step ([], []) (''foo ; extra == 'x'' @ [squote]) = ([], [(''x'', [''foo ''])])
   \<and> group_step ([], []) ''foo ;'' = ([''foo ''], [])"
proof -
  have a: "group_step ([], []) (''foo ; extra == 'x'' @ [squote]) =
     (let requirement = takeWhile (\<lambda>c. c \<noteq> CHR '';'') (''foo ; extra == 'x'' @ [squote]);
          marker = strip (drop (Suc (length requirement)) (''foo ; extra == 'x'' @ [squote]))
      in if marker = [] then ([] @ [requirement], [])
         else (case EXTRA_RE_match marker of
                 Some e \<Rightarrow> ([], dd_append e requirement [])
               | None \<Rightarrow> ([], [])))"
    by (rule requirement_part_verbatim)
  have b: "(let requirement = takeWhile (\<lambda>c. c \<noteq> CHR '';'') (''foo ; extra == 'x'' @ [squote]);
          marker = strip (drop (Suc (length requirement)) (''foo ; extra == 'x'' @ [squote]))
      in if marker = [] then ([] @ [requirement], [])
         else (case EXTRA_RE_match marker of
                 Some e \<Rightarrow> ([], dd_append e requirement [])
               | None \<Rightarrow> ([], []))) = ([], [(''x'', [''foo ''])])"
    by code_simp
  have c: "group_step ([], []) ''foo ;'' = ([''foo ''], [])" by code_simp
  from a b c show ?thesis by (simp only:)
qed

section \<open>The contact consolidator: properties\<close>

lemma contact_role_eq:
  assumes "ef \<noteq> nf"
  shows "contact_role (cs, md) ([(''email'', ef), (''name'', nf)], role) =
     (cs @ contact_record md ef nf role, md(ef := None, nf := None))"
  using assms
  by (cases "md ef"; cases "md nf")
     (auto simp add: contact_role_def contact_piece_def contact_record_def domIff fun_upd_twist)

lemma handle_contacts_eq:
  "handle_contacts md =
     (let contacts = contact_record md ''author_email'' ''author'' ''author'' @
                     contact_record md ''maintainer_email'' ''maintainer'' ''maintainer'';
          rest = md(''author_email'' := None, ''author'' := None,
                    ''maintainer_email'' := None, ''maintainer'' := None)
      in if contacts = [] then rest else rest(''contacts'' \<mapsto> List contacts))"
proof -
  let ?md1 = "md(''author_email'' := None, ''author'' := None)"
  have a: "contact_record ?md1 ''maintainer_email'' ''maintainer'' ''maintainer''
         = contact_record md ''maintainer_email'' ''maintainer'' ''maintainer''"
    by (simp add: contact_record_def)
  have "foldl contact_role ([], md) CONTACT_FIELDS =
      (contact_record md ''author_email'' ''author'' ''author'' @
       contact_record md ''maintainer_email'' ''maintainer'' ''maintainer'',
       md(''author_email'' := None, ''author'' := None,
          ''maintainer_email'' := None, ''maintainer'' := None))"
    by (simp add: CONTACT_FIELDS_def contact_role_eq a)
  then show ?thesis by (simp add: handle_contacts_def Let_def)
qed

text \<open>
  C7.  Contact consolidation, for any document: the records are the author record (when
  the document has \<open>author_email\<close> or \<open>author\<close>) followed by the maintainer record (when it
  has \<open>maintainer_email\<close> or \<open>maintainer\<close>), each holding the pieces that were there and its
  role; the four fields are removed; \<open>contacts\<close> is stored when there is a record.
\<close>

theorem contacts_consolidated:
  "handle_contacts md =
     (let contacts = contact_record md ''author_email'' ''author'' ''author'' @
                     contact_record md ''maintainer_email'' ''maintainer'' ''maintainer'';
          rest = md(''author_email'' := None, ''author'' := None,
                    ''maintainer_email'' := None, ''maintainer'' := None)
      in if contacts = [] then rest else rest(''contacts'' \<mapsto> List contacts))"
  by (rule handle_contacts_eq)

theorem contacts_consolidated_witness:
  "handle_contacts [''author'' \<mapsto> Str ''Jane Doe'', ''author_email'' \<mapsto> Str ''jane@x.org'',
                    ''name'' \<mapsto> Str ''pkg'']
   = [''name'' \<mapsto> Str ''pkg'',
      ''contacts'' \<mapsto> List [Dict [(''email'', Str ''jane@x.org''), (''name'', Str ''Jane Doe''),
                                      (''role'', Str ''author'')]]]"
  unfolding contacts_consolidated by (auto simp add: contact_record_def Let_def)

section \<open>The description normalizer: properties\<close>

lemma startswith_prefix: "startswith s p \<longleftrightarrow> prefix p s"
  by (metis startswith_def prefix_def append_eq_conv_conj append_take_drop_id)

lemma splitlines_from_no_linebreak:
  "\<forall>c\<in>set cur. \<not> is_linebreak c \<Longrightarrow> l \<in> set (splitlines_from cur s) \<Longrightarrow> c \<in> set l \<Longrightarrow> \<not> is_linebreak c"
  by (induction cur s rule: splitlines_from.induct) (auto split: if_splits)

lemma splitlines_no_newline:
  "l \<in> set (splitlines s) \<Longrightarrow> newline \<notin> set l"
proof
  assume "l \<in> set (splitlines s)" "newline \<in> set l"
  then have "\<not> is_linebreak newline"
    using splitlines_from_no_linebreak [of "[]" l s newline] by (simp add: splitlines_def)
  then show False by (simp add: is_linebreak_def newline_def)
qed

lemma splitlines_from_nonempty: "s \<noteq> [] \<Longrightarrow> splitlines_from cur s \<noteq> []"
  by (induction cur s rule: splitlines_from.induct) auto

lemma splitlines_nonempty: "s \<noteq> [] \<Longrightarrow> splitlines s \<noteq> []"
  by (simp add: splitlines_def splitlines_from_nonempty)

lemma split_on_no_sep: "sep \<notin> set l \<Longrightarrow> split_on sep l = [l]"
  by (induction l) (auto simp add: Let_def)

lemma split_on_append_sep:
  "sep \<notin> set l \<Longrightarrow> split_on sep (l @ sep # rest) = l # split_on sep rest"
  by (induction l) (auto simp add: Let_def)

lemma split_on_join:
  "ls \<noteq> [] \<Longrightarrow> \<forall>l\<in>set ls. sep \<notin> set l \<Longrightarrow> split_on sep (join [sep] ls) = ls"
  by (induction "[sep]" ls rule: join.induct) (auto simp add: split_on_no_sep split_on_append_sep)

lemma dedent_lines_Nil: "dedent_lines [] = []"
  by (simp add: dedent_lines_def indents_of_def)

lemma dedent_lines_empty_line: "dedent_lines [[]] = [[]]"
  by (simp add: dedent_lines_def indents_of_def blank_out_def)

lemma dedent_join:
  assumes "\<forall>l\<in>set ls. newline \<notin> set l"
  shows "dedent (join [newline] ls) = join [newline] (dedent_lines ls)"
proof (cases "ls = []")
  case True
  then show ?thesis by (simp add: dedent_def dedent_lines_Nil dedent_lines_empty_line)
next
  case False
  then show ?thesis using assms by (simp add: dedent_def split_on_join)
qed

lemma zip_cut_prefix_left: "prefix (zip_cut m i) m"
  by (induction m i rule: zip_cut.induct) auto

lemma zip_cut_prefix_right: "\<not> prefix i m \<Longrightarrow> prefix (zip_cut m i) i"
  by (induction m i rule: zip_cut.induct) auto

lemma zip_cut_greatest: "prefix p m \<Longrightarrow> prefix p i \<Longrightarrow> prefix p (zip_cut m i)"
  by (induction m i arbitrary: p rule: zip_cut.induct) (auto simp add: prefix_Cons)

lemma margin_step_Some:
  "\<exists>m'. margin_step i (Some m) = Some m' \<and> prefix m' m \<and> prefix m' i
        \<and> (\<forall>p. prefix p m \<longrightarrow> prefix p i \<longrightarrow> prefix p m')"
  by (auto simp add: margin_step_def startswith_prefix zip_cut_prefix_left zip_cut_prefix_right
        zip_cut_greatest)

lemma fold_margin_Some:
  "\<exists>m. fold margin_step inds (Some m0) = Some m \<and> prefix m m0 \<and> (\<forall>i\<in>set inds. prefix m i)
       \<and> (\<forall>p. prefix p m0 \<longrightarrow> (\<forall>i\<in>set inds. prefix p i) \<longrightarrow> prefix p m)"
proof (induction inds arbitrary: m0)
  case Nil
  then show ?case by simp
next
  case (Cons i inds)
  obtain m1 where m1: "margin_step i (Some m0) = Some m1" "prefix m1 m0" "prefix m1 i"
      "\<forall>p. prefix p m0 \<longrightarrow> prefix p i \<longrightarrow> prefix p m1"
    using margin_step_Some [of i m0] by blast
  obtain m where m: "fold margin_step inds (Some m1) = Some m" "prefix m m1"
      "\<forall>j\<in>set inds. prefix m j"
      "\<forall>p. prefix p m1 \<longrightarrow> (\<forall>j\<in>set inds. prefix p j) \<longrightarrow> prefix p m"
    using Cons.IH [of m1] by blast
  have "fold margin_step (i # inds) (Some m0) = Some m" using m1 m by simp
  moreover have "prefix m m0" "prefix m i" using m(2) m1(2,3) prefix_order.trans by blast+
  moreover have "\<forall>p. prefix p m0 \<longrightarrow> (\<forall>j\<in>set (i # inds). prefix p j) \<longrightarrow> prefix p m"
    using m1(4) m(4) by simp
  ultimately show ?case using m(3) by auto
qed

lemma fold_margin_None:
  "fold margin_step inds None =
     (if inds = [] then None else fold margin_step (tl inds) (Some (hd inds)))"
  by (cases inds) (simp_all add: margin_step_def)

text \<open>The margin is a prefix of every indent, and the longest such.\<close>

lemma margin_lcp:
  assumes "inds \<noteq> []"
  shows "\<exists>m. fold margin_step inds None = Some m \<and> (\<forall>i\<in>set inds. prefix m i)
       \<and> (\<forall>p. (\<forall>i\<in>set inds. prefix p i) \<longrightarrow> prefix p m)"
proof -
  from assms obtain i rest where ir: "inds = i # rest" by (cases inds) auto
  obtain m where m: "fold margin_step rest (Some i) = Some m" "prefix m i"
     "\<forall>j\<in>set rest. prefix m j" "\<forall>p. prefix p i \<longrightarrow> (\<forall>j\<in>set rest. prefix p j) \<longrightarrow> prefix p m"
    using fold_margin_Some [of rest i] by blast
  show ?thesis using m ir by (simp add: margin_step_def)
qed

lemma blank_out_eq: "blank_out l = (if nonblank l then l else [])"
  by (auto simp add: blank_out_def nonblank_def dropWhile_eq_Nil_conv list_all_iff)

lemma nonblank_blank_out: "nonblank (blank_out l) = nonblank l"
  by (simp add: blank_out_eq) (simp add: nonblank_def)

lemma indents_of_blank_out:
  "indents_of (map blank_out ls) = map (takeWhile is_blank) (filter nonblank ls)"
proof -
  have "filter (\<lambda>l. dropWhile is_blank l \<noteq> []) (map blank_out ls) = filter nonblank ls"
    by (induction ls) (auto simp add: blank_out_eq nonblank_def)
  then show ?thesis by (simp add: indents_of_def)
qed

lemma dedent_lines_all_blank:
  assumes "\<forall>l\<in>set ls. \<not> nonblank l"
  shows "dedent_lines ls = map (\<lambda>l. []) ls"
proof -
  have "filter nonblank ls = []" using assms by (simp add: filter_empty_conv)
  then have b: "indents_of (map blank_out ls) = []" by (simp add: indents_of_blank_out)
  have a: "map blank_out ls = map (\<lambda>l. []) ls" using assms by (simp add: blank_out_eq)
  show ?thesis unfolding dedent_lines_def Let_def b by (simp add: a)
qed

lemma dedent_lines_margin:
  assumes "l0 \<in> set ls" "nonblank l0"
  shows "\<exists>m. list_all is_blank m
           \<and> (\<forall>l\<in>set ls. nonblank l \<longrightarrow> prefix m (takeWhile is_blank l))
           \<and> (\<forall>p. (\<forall>l\<in>set ls. nonblank l \<longrightarrow> prefix p (takeWhile is_blank l)) \<longrightarrow> prefix p m)
           \<and> dedent_lines ls = map (\<lambda>l. if nonblank l then drop (length m) l else []) ls"
proof -
  let ?inds = "map (takeWhile is_blank) (filter nonblank ls)"
  have ne: "?inds \<noteq> []" using assms by (auto simp add: filter_empty_conv)
  obtain m where m: "fold margin_step ?inds None = Some m" "\<forall>i\<in>set ?inds. prefix m i"
      "\<forall>p. (\<forall>i\<in>set ?inds. prefix p i) \<longrightarrow> prefix p m"
    using margin_lcp [OF ne] by blast
  have pre: "\<forall>l\<in>set ls. nonblank l \<longrightarrow> prefix m (takeWhile is_blank l)" using m(2) by auto
  have "prefix m (takeWhile is_blank l0)" using pre assms by blast
  then have "set m \<subseteq> set (takeWhile is_blank l0)" by (rule set_mono_prefix)
  then have "\<forall>c\<in>set m. is_blank c" by (auto dest: set_takeWhileD)
  then have blank: "list_all is_blank m" by (simp add: list_all_iff)
  have great: "\<forall>p. (\<forall>l\<in>set ls. nonblank l \<longrightarrow> prefix p (takeWhile is_blank l)) \<longrightarrow> prefix p m"
    using m(3) by auto
  have cut: "cut_margin m (blank_out l) = (if nonblank l then drop (length m) l else [])"
    if "l \<in> set ls" for l
  proof (cases "nonblank l")
    case True
    then have "prefix m (takeWhile is_blank l)" using pre that by blast
    moreover have "prefix (takeWhile is_blank l) l"
      by (metis prefixI takeWhile_dropWhile_id)
    ultimately have "prefix m l" using prefix_order.trans by blast
    then show ?thesis using True by (simp add: cut_margin_def blank_out_eq startswith_prefix)
  next
    case False
    then show ?thesis by (simp add: cut_margin_def blank_out_eq startswith_def)
  qed
  have id: "blank_out l = (if nonblank l then drop (length m) l else [])" if "m = []" for l
    using that by (simp add: blank_out_eq)
  have "dedent_lines ls = map (\<lambda>l. if nonblank l then drop (length m) l else []) ls"
  proof (cases "m = []")
    case True
    then show ?thesis using m(1) by (simp add: dedent_lines_def indents_of_blank_out id)
  next
    case False
    then show ?thesis using m(1) cut by (simp add: dedent_lines_def indents_of_blank_out)
  qed
  with blank pre great show ?thesis by blast
qed

lemma dedent_lines_block:
  "\<exists>margin. list_all is_blank margin
     \<and> length (dedent_lines ls) = length ls
     \<and> (\<forall>i<length ls. if nonblank (ls ! i) then ls ! i = margin @ dedent_lines ls ! i
                        else dedent_lines ls ! i = [])
     \<and> ((\<exists>l\<in>set ls. nonblank l) \<longrightarrow>
          \<not> (\<exists>c. is_blank c \<and> (\<forall>i<length ls. nonblank (ls ! i) \<longrightarrow> take 1 (dedent_lines ls ! i) = [c])))"
proof (cases "\<exists>l\<in>set ls. nonblank l")
  case False
  then have "dedent_lines ls = map (\<lambda>l. []) ls" by (simp add: dedent_lines_all_blank)
  with False show ?thesis by (intro exI [of _ "[]"]) simp
next
  case True
  then obtain l0 where l0: "l0 \<in> set ls" "nonblank l0" by blast
  obtain m where m: "list_all is_blank m"
      "\<forall>l\<in>set ls. nonblank l \<longrightarrow> prefix m (takeWhile is_blank l)"
      "\<forall>p. (\<forall>l\<in>set ls. nonblank l \<longrightarrow> prefix p (takeWhile is_blank l)) \<longrightarrow> prefix p m"
      "dedent_lines ls = map (\<lambda>l. if nonblank l then drop (length m) l else []) ls"
    using dedent_lines_margin [OF l0] by blast
  have split: "l = m @ drop (length m) l" if "l \<in> set ls" "nonblank l" for l
  proof -
    have "prefix m (takeWhile is_blank l)" using m(2) that by blast
    moreover have "prefix (takeWhile is_blank l) l" by (metis prefixI takeWhile_dropWhile_id)
    ultimately have "prefix m l" using prefix_order.trans by blast
    then show ?thesis by (metis append_eq_conv_conj prefix_def)
  qed
  have lines: "\<forall>i<length ls. if nonblank (ls ! i) then ls ! i = m @ dedent_lines ls ! i
                        else dedent_lines ls ! i = []"
    using split m(4) by simp
  have maximal: "\<not> (\<exists>c. is_blank c \<and> (\<forall>i<length ls. nonblank (ls ! i) \<longrightarrow> take 1 (dedent_lines ls ! i) = [c]))"
  proof
    assume "\<exists>c. is_blank c \<and> (\<forall>i<length ls. nonblank (ls ! i) \<longrightarrow> take 1 (dedent_lines ls ! i) = [c])"
    then obtain c where c: "is_blank c"
        "\<forall>i<length ls. nonblank (ls ! i) \<longrightarrow> take 1 (dedent_lines ls ! i) = [c]" by blast
    have "prefix (m @ [c]) (takeWhile is_blank l)" if l: "l \<in> set ls" "nonblank l" for l
    proof -
      obtain i where i: "i < length ls" "ls ! i = l" using l(1) by (meson in_set_conv_nth)
      have "take 1 (drop (length m) l) = [c]" using c(2) i l(2) m(4) by auto
      then obtain r where r: "drop (length m) l = c # r"
        by (cases "drop (length m) l") auto
      have "l = m @ c # r" using split [OF l] r by simp
      then have "takeWhile is_blank l = m @ c # takeWhile is_blank r"
        using m(1) c(1) by (simp add: takeWhile_append2 list_all_iff)
      then show ?thesis by simp
    qed
    then have "prefix (m @ [c]) m" using m(3) by blast
    then show False by simp
  qed
  show ?thesis using m(1) m(4) lines maximal by (intro exI [of _ m]) simp
qed

text \<open>
  C8 (as amended: the description is not empty).  The result is the first line without its
  leading whitespace, a newline, the following lines dedented and joined by newlines, and two
  newlines.  The following lines are dedented as a block: one margin of blanks is cut from
  every line that has a non-blank character, a line without one becomes empty, and the margin
  is the longest there is (no blank stands at the start of all the lines that were cut).
\<close>

theorem dedent_description_native:
  assumes "msg_get pkg_info ''Description'' = Some description" and "description \<noteq> []"
  shows "\<exists>first following margin body.
      splitlines description = first # following
    \<and> dedent_description pkg_info =
        Inr (lstrip first @ [newline] @ join [newline] body @ [newline, newline])
    \<and> length body = length following
    \<and> list_all is_blank margin
    \<and> (\<forall>i<length following.
          if nonblank (following ! i) then following ! i = margin @ body ! i else body ! i = [])
    \<and> ((\<exists>l\<in>set following. nonblank l) \<longrightarrow>
        \<not> (\<exists>c. is_blank c \<and> (\<forall>i<length following. nonblank (following ! i) \<longrightarrow> take 1 (body ! i) = [c])))"
proof -
  obtain first following where sl: "splitlines description = first # following"
    using splitlines_nonempty [OF assms(2)] by (cases "splitlines description") auto
  have "\<forall>l\<in>set following. newline \<notin> set l"
    using splitlines_no_newline [of _ description] sl by simp
  then have d: "dedent (join [newline] following) = join [newline] (dedent_lines following)"
    by (rule dedent_join)
  have r: "dedent_description pkg_info =
      Inr (lstrip first @ [newline] @ join [newline] (dedent_lines following) @ [newline, newline])"
    using assms(1) sl d by (simp add: dedent_description_def)
  obtain margin where m: "list_all is_blank margin"
     "length (dedent_lines following) = length following"
     "\<forall>i<length following. if nonblank (following ! i)
         then following ! i = margin @ dedent_lines following ! i
         else dedent_lines following ! i = []"
     "(\<exists>l\<in>set following. nonblank l) \<longrightarrow>
        \<not> (\<exists>c. is_blank c \<and> (\<forall>i<length following. nonblank (following ! i) \<longrightarrow>
              take 1 (dedent_lines following ! i) = [c]))"
    using dedent_lines_block [of following] by blast
  show ?thesis
    using sl r m by (intro exI [of _ first] exI [of _ following] exI [of _ margin]
        exI [of _ "dedent_lines following"]) simp
qed

theorem dedent_description_native_witness:
  "msg_get \<lparr>headers = [(''Description'', ''Para one.\<newline>    Para two line A.\<newline>    Para two line B.'')],
            payload = None\<rparr> ''Description''
     = Some ''Para one.\<newline>    Para two line A.\<newline>    Para two line B.''
   \<and> dedent_description
        \<lparr>headers = [(''Description'', ''Para one.\<newline>    Para two line A.\<newline>    Para two line B.'')],
         payload = None\<rparr>
     = Inr ''Para one.\<newline>Para two line A.\<newline>Para two line B.\<newline>\<newline>''
   \<and> (\<exists>first following body.
        splitlines ''Para one.\<newline>    Para two line A.\<newline>    Para two line B.'' = first # following
      \<and> dedent_description
           \<lparr>headers = [(''Description'', ''Para one.\<newline>    Para two line A.\<newline>    Para two line B.'')],
            payload = None\<rparr>
          = Inr (lstrip first @ [newline] @ join [newline] body @ [newline, newline])
      \<and> length body = length following)"
proof -
  let ?d = "''Para one.\<newline>    Para two line A.\<newline>    Para two line B.''"
  let ?p = "\<lparr>headers = [(''Description'', ?d)], payload = None\<rparr>"
  have g: "msg_get ?p ''Description'' = Some ?d" by code_simp
  have n: "?d \<noteq> []" by simp
  have v: "dedent_description ?p
      = Inr ''Para one.\<newline>Para two line A.\<newline>Para two line B.\<newline>\<newline>''"
    by code_simp
  from dedent_description_native [OF g n] have
    "\<exists>first following body. splitlines ?d = first # following
      \<and> dedent_description ?p = Inr (lstrip first @ [newline] @ join [newline] body @ [newline, newline])
      \<and> length body = length following"
    by blast
  with g v show ?thesis by (simp only: simp_thms)
qed

text \<open>
  C8 as stated (every native-text description) fails at the empty description: it has no
  first line, and \<open>description_lines[0]\<close> raises \<open>IndexError\<close>.  Both callers test the
  description for emptiness before they normalize it.
\<close>

theorem dedent_description_empty_counterexample:
  "dedent_description \<lparr>headers = [(''Description'', [])], payload = None\<rparr> = Inl IndexError"
  by code_simp

section \<open>The requirement composer: properties\<close>

lemma repr_char_plain:
  "printable c \<Longrightarrow> c \<noteq> squote \<Longrightarrow> c \<noteq> backslash \<Longrightarrow> repr_char squote c = [c]"
  by (auto simp add: repr_char_def printable_def Let_def)

lemma concat_repr_plain:
  "\<forall>c\<in>set s. printable c \<and> c \<noteq> squote \<and> c \<noteq> backslash \<Longrightarrow> concat (map (repr_char squote) s) = s"
  by (induction s) (simp_all add: repr_char_plain)

lemma repr_str_plain:
  assumes "\<forall>c\<in>set s. printable c \<and> c \<noteq> squote \<and> c \<noteq> backslash"
  shows "repr_str s = [squote] @ s @ [squote]"
  using assms concat_repr_plain [OF assms] by (auto simp add: repr_str_def)

text \<open>
  C4 (as amended).  The composed line is the project name; then the comma-joined extras
  between brackets, unless that text is empty; then, unless there is no pair, a space and
  the comma-joined operator-version pairs between parentheses; then, when the section has a
  non-empty name, \<open>; extra == \<close> and the \<open>repr\<close> of the name, which is the name between single
  quotes when its characters are printable and none is a single quote or a backslash.
\<close>

theorem requires_dist_line_composed:
  "requires_dist_line r (extra_condition extra) =
     project_name r
     @ (if join '','' (extras r) = [] then [] else ''['' @ join '','' (extras r) @ '']'')
     @ (if specs r = [] then [] else '' ('' @ join '','' (map (\<lambda>ov. fst ov @ snd ov) (specs r)) @ '')'')
     @ (case extra of
          None \<Rightarrow> []
        | Some name \<Rightarrow>
            if name = [] then []
            else if \<forall>c\<in>set name. printable c \<and> c \<noteq> squote \<and> c \<noteq> backslash
            then ''; extra == '' @ [squote] @ name @ [squote]
            else ''; extra == '' @ repr_str name)"
  by (auto simp add: requires_dist_line_def requires_to_requires_dist_def extra_condition_def
        nonempty_def Let_def repr_str_plain split: option.split)

theorem requires_dist_line_composed_witness:
  "requires_dist_line
     \<lparr>project_name = ''foo'', extras = [''a'', ''b''], specs = [(''>='', ''1.0''), (''<'', ''2'')]\<rparr>
     (extra_condition (Some ''test''))
   = ''foo[a,b] (>=1.0,<2); extra == 'test'' @ [squote]"
proof -
  let ?r = "\<lparr>project_name = ''foo'', extras = [''a'', ''b''],
             specs = [(''>='', ''1.0''), (''<'', ''2'')]\<rparr>"
  let ?rhs = "project_name ?r
     @ (if join '','' (extras ?r) = [] then [] else ''['' @ join '','' (extras ?r) @ '']'')
     @ (if specs ?r = [] then [] else '' ('' @ join '','' (map (\<lambda>ov. fst ov @ snd ov) (specs ?r)) @ '')'')
     @ (case Some ''test'' of
          None \<Rightarrow> []
        | Some name \<Rightarrow>
            if name = [] then []
            else if \<forall>c\<in>set name. printable c \<and> c \<noteq> squote \<and> c \<noteq> backslash
            then ''; extra == '' @ [squote] @ name @ [squote]
            else ''; extra == '' @ repr_str name)"
  have a: "requires_dist_line ?r (extra_condition (Some ''test'')) = ?rhs"
    by (rule requires_dist_line_composed)
  have b: "?rhs = ''foo[a,b] (>=1.0,<2); extra == 'test'' @ [squote]" by code_simp
  from a b show ?thesis by (simp only:)
qed

text \<open>
  C4 as stated fails in two places: the parenthesized pairs come after a space, and a name
  with a single quote and no double quote is written between double quotes.
\<close>

theorem requires_dist_line_counterexample:
  "requires_dist_line \<lparr>project_name = ''foo'', extras = [], specs = [(''>='', ''1.0'')]\<rparr>
       (extra_condition None) = ''foo (>=1.0)''
   \<and> claimed_requires_dist_line \<lparr>project_name = ''foo'', extras = [], specs = [(''>='', ''1.0'')]\<rparr>
       None = ''foo(>=1.0)''
   \<and> requires_dist_line \<lparr>project_name = ''foo'', extras = [], specs = []\<rparr>
       (extra_condition (Some ''a'b'')) = ''foo; extra == '' @ [dquote] @ ''a'b'' @ [dquote]
   \<and> claimed_requires_dist_line \<lparr>project_name = ''foo'', extras = [], specs = []\<rparr>
       (Some ''a'b'') = ''foo; extra == '' @ [squote] @ ''a'b'' @ [squote]"
  by code_simp

section \<open>The reverse conversion: properties\<close>
















lemma dedent_description_total:
  assumes "nonempty (msg_get p ''Description'')"
  shows "\<exists>d. dedent_description p = Inr d"
proof -
  from assms obtain s where s: "msg_get p ''Description'' = Some s" "s \<noteq> []"
    by (auto simp add: nonempty_def split: option.splits)
  from splitlines_nonempty [OF s(2)] obtain l ls where "splitlines s = l # ls"
    by (cases "splitlines s") auto
  with s show ?thesis by (simp add: dedent_description_def)
qed



section \<open>The forward conversion: properties\<close>

lemma unique_from_set: "set (unique_from seen xs) = set xs - seen"
  by (induction xs arbitrary: seen) auto


lemma set_unique: "set (unique xs) = set xs"
  by (simp add: unique_def unique_from_set)


lemma extend_extras_frame:
  "extend_extras md ys = Inr md' \<Longrightarrow> f \<noteq> ''extras'' \<Longrightarrow> md' f = md f"
  by (auto simp add: extend_extras_def Let_def split: sum.splits if_splits)

lemma requires_dist_rule_frame:
  assumes "requires_dist_rule p k md = Inr md'"
    and "f \<noteq> ''requires''" "f \<noteq> ''may_require''" "f \<noteq> ''extras''"
  shows "md' f = md f"
proof -
  from assms(1) obtain vals where v: "msg_get_all p k = Some vals"
    by (auto simp add: requires_dist_rule_def split: option.splits)
  obtain reqs ex where g: "group_requirements vals = (reqs, ex)" by (cases "group_requirements vals")
  show ?thesis
  proof (cases "ex = []")
    case True
    then show ?thesis using assms v g by (auto simp add: requires_dist_rule_def)
  next
    case False
    then have "extend_extras
        (md(''requires'' \<mapsto> str_list reqs,
            ''may_require'' \<mapsto> List (map may_require_record (sort_key fst ex))))
        (map Str (sort (map fst ex))) = Inr md'"
      using assms(1) v g by (simp add: requires_dist_rule_def)
    from extend_extras_frame [OF this assms(4)] show ?thesis using assms(2,3) by simp
  qed
qed

lemma field_rule_frame:
  assumes "field_rule p k md = Inr md'" and "f \<notin> written_fields k"
  shows "md' f = md f"
proof (cases "PLURAL_FIELDS (replace_hyphens k)")
  case (Some plural)
  then show ?thesis using assms
    by (auto simp add: field_rule_def written_fields_def Let_def split: if_splits)
next
  case None
  show ?thesis
  proof (cases "replace_hyphens k = ''requires_dist''")
    case True
    then have w: "f \<noteq> ''requires''" "f \<noteq> ''may_require''" "f \<noteq> ''extras''"
      using assms(2) None by (auto simp add: written_fields_def)
    have "field_rule p k md = Inr md \<or> field_rule p k md = requires_dist_rule p k md"
      using True None by (simp add: field_rule_def Let_def)
    then show ?thesis using assms(1) requires_dist_rule_frame w by fastforce
  next
    case False
    show ?thesis
    proof (cases "replace_hyphens k = ''provides_extra''")
      case True
      then show ?thesis using None by (simp add: PLURAL_FIELDS_def)
    next
      case pe: False
      then show ?thesis using assms None False
        by (auto simp add: field_rule_def written_fields_def Let_def split: if_splits)
    qed
  qed
qed

lemma field_loop_frame:
  "field_loop p ks md = Inr md' \<Longrightarrow> \<forall>k\<in>set ks. f \<notin> written_fields k \<Longrightarrow> md' f = md f"
proof (induction ks arbitrary: md)
  case Nil
  then show ?case by simp
next
  case (Cons k ks)
  then obtain m where m: "field_rule p k md = Inr m" "field_loop p ks m = Inr md'"
    by (auto split: sum.splits)
  have "m f = md f" using field_rule_frame [OF m(1)] Cons.prems(2) by simp
  moreover have "md' f = m f" using Cons.IH [OF m(2)] Cons.prems(2) by simp
  ultimately show ?case by simp
qed



lemma field_rule_total:
  "replace_hyphens k \<noteq> ''requires_dist'' \<Longrightarrow> \<exists>md'. field_rule p k md = Inr md'"
  by (auto simp add: field_rule_def Let_def PLURAL_FIELDS_def split: option.splits)

lemma field_loop_total:
  "\<forall>k\<in>set ks. replace_hyphens k \<noteq> ''requires_dist'' \<Longrightarrow> \<exists>md'. field_loop p ks md = Inr md'"
proof (induction ks arbitrary: md)
  case Nil
  then show ?case by simp
next
  case (Cons k ks)
  then obtain m where "field_rule p k md = Inr m" using field_rule_total [of k p md] by auto
  then show ?case using Cons by simp
qed



lemma extract_description_cases:
  "\<exists>md0 p. extract_description hb = Inr (md0, p)
      \<and> dom md0 \<subseteq> {''description''}
      \<and> (p = hb \<or> p = msg_del hb ''Description'')
      \<and> (''description'' \<in> dom md0 \<longrightarrow> nonempty (msg_get hb ''Description'') \<or> nonempty (payload hb))"
proof (cases "nonempty (msg_get hb ''Description'')")
  case True
  then obtain d where "dedent_description hb = Inr d" using dedent_description_total by blast
  then show ?thesis using True by (simp add: extract_description_def)
next
  case False
  then show ?thesis by (simp add: extract_description_def)
qed

lemma msg_keys_del: "set (msg_keys (msg_del hb n)) \<subseteq> set (msg_keys hb)"
  by (auto simp add: msg_keys_def msg_del_def)





lemma loop_keys_subset:
  assumes "p = hb \<or> p = msg_del hb n"
  shows "set (unique (map lower (msg_keys p))) \<subseteq> lower ` set (msg_keys hb)"
  using assms msg_keys_del [of hb n] by (auto simp add: set_unique)

lemma pkginfo_to_dict_steps:
  assumes "extract_description hb = Inr (md0, p)"
    and "field_loop p (unique (map lower (msg_keys p))) md0 = Inr md1"
  shows "pkginfo_to_dict hb dist =
     (case finish_extras (md1(''metadata_version'' \<mapsto> Str METADATA_VERSION)) of
        Inl e \<Rightarrow> Inl e
      | Inr md2 \<Rightarrow> Inr (handle_contacts (add_test_requires dist md2)))"
  using assms by (simp add: pkginfo_to_dict_def)

lemma writes_extras_if_requires_dist:
  "replace_hyphens k = ''requires_dist'' \<Longrightarrow> ''extras'' \<in> written_fields k"
  by (simp add: written_fields_def PLURAL_FIELDS_def)

text \<open>
  C1.  The conversion does not complete for every header block: line 107 reads
  \<open>metadata['extras']\<close> without the test for its presence that the two other places make.
  A header block none of whose keys can store \<open>extras\<close> (no Provides-Extra, Extras or
  Requires-Dist header) raises \<open>KeyError\<close>.
\<close>

theorem no_extras_KeyError:
  assumes "\<forall>k\<in>set (msg_keys hb). ''extras'' \<notin> written_fields (lower k)"
  shows "pkginfo_to_dict hb dist = Inl (KeyError ''extras'')"
proof -
  obtain md0 p where e: "extract_description hb = Inr (md0, p)" "dom md0 \<subseteq> {''description''}"
      "p = hb \<or> p = msg_del hb ''Description''"
    using extract_description_cases [of hb] by blast
  let ?ks = "unique (map lower (msg_keys p))"
  have ks: "\<forall>k\<in>set ?ks. ''extras'' \<notin> written_fields k"
    using loop_keys_subset [OF e(3)] assms by auto
  then have "\<forall>k\<in>set ?ks. replace_hyphens k \<noteq> ''requires_dist''"
    using writes_extras_if_requires_dist by blast
  then obtain md1 where l: "field_loop p ?ks md0 = Inr md1"
    using field_loop_total by blast
  have "md1 ''extras'' = md0 ''extras''" using field_loop_frame [OF l ks] .
  moreover have "md0 ''extras'' = None" using e(2) by (auto simp add: domIff)
  ultimately have "finish_extras (md1(''metadata_version'' \<mapsto> Str METADATA_VERSION))
      = Inl (KeyError ''extras'')"
    by (simp add: finish_extras_def)
  then show ?thesis using pkginfo_to_dict_steps [OF e(1) l] by simp
qed

theorem no_extras_KeyError_witness:
  "pkginfo_to_dict \<lparr>headers = [(''Metadata-Version'', ''1.1''), (''Name'', ''foo''),
                                (''Version'', ''1.0'')], payload = None\<rparr> NoDistribution
   = Inl (KeyError ''extras'')"
proof -
  have h: "\<forall>k\<in>set (msg_keys \<lparr>headers = [(''Metadata-Version'', ''1.1''), (''Name'', ''foo''),
                                     (''Version'', ''1.0'')], payload = None\<rparr>).
      ''extras'' \<notin> written_fields (lower k)"
    by code_simp
  show ?thesis by (rule no_extras_KeyError [OF h])
qed





















lemma same_name_lower: "lower a = lower b \<Longrightarrow> same_name a = same_name b"
  by (rule ext) (simp add: same_name_def)


lemma msg_get_lower: "lower a = lower b \<Longrightarrow> msg_get p a = msg_get p b"
  by (simp add: msg_get_def same_name_lower [of a b])












































end
